theory Spec2Isabelle
  imports Main "HOL-Library.Sublist"
begin

section \<open>Strings of the host language\<close>

text \<open>
  A string of \<^verbatim>\<open>scripts.js\<close> is a sequence of UTF-16 code units. The model covers the
  code units below 256 (the Latin-1 range), one \<^typ>\<open>char\<close> each, read through
  \<^const>\<open>of_char\<close>. On that range \<^verbatim>\<open>String.prototype.toLowerCase\<close> works code unit by
  code unit: \<^verbatim>\<open>A\<close>..\<^verbatim>\<open>Z\<close> and U+00C0..U+00DE (without the multiplication sign U+00D7) move
  up by 32, everything else stays. \<^verbatim>\<open>String.prototype.trim\<close> removes white space and line
  terminators from both ends; below 256 these are TAB, LF, VT, FF, CR, SPACE and NBSP.
\<close>

definition toLowerChar :: "char \<Rightarrow> char" where
  "toLowerChar c =
     (let n = (of_char c :: nat)
      in if (65 \<le> n \<and> n \<le> 90) \<or> (192 \<le> n \<and> n \<le> 222 \<and> n \<noteq> 215)
         then char_of (n + 32) else c)"

definition toLowerCase :: "string \<Rightarrow> string" where
  "toLowerCase s = map toLowerChar s"

definition isWhiteSpace :: "char \<Rightarrow> bool" where
  "isWhiteSpace c =
     (let n = (of_char c :: nat)
      in n = 9 \<or> n = 10 \<or> n = 11 \<or> n = 12 \<or> n = 13 \<or> n = 32 \<or> n = 160)"

definition trim :: "string \<Rightarrow> string" where
  "trim s = rev (dropWhile isWhiteSpace (rev (dropWhile isWhiteSpace s)))"

text \<open>
  \<^verbatim>\<open>s.includes(t)\<close> searches \<^verbatim>\<open>t\<close> at every position of \<^verbatim>\<open>s\<close>, from the left; the empty
  string is found everywhere, also in the empty string.
\<close>

fun includesS :: "string \<Rightarrow> string \<Rightarrow> bool" where
  "includesS [] t = (t = [])"
| "includesS (c # s) t = (take (length t) (c # s) = t \<or> includesS s t)"

section \<open>The catalog\<close>

text \<open>
  \<^verbatim>\<open>data.js\<close> exports the arrays \<^verbatim>\<open>books\<close>, \<^verbatim>\<open>authors\<close>, \<^verbatim>\<open>genres\<close> and the constant
  \<^verbatim>\<open>BOOKS_PER_PAGE\<close>. The functions below take them as the parameter \<open>D\<close>.
\<close>

record book =
  book_id :: string
  book_title :: string
  book_author :: string
  book_image :: string
  book_description :: string
  book_published :: string
  book_genres :: "string list"

record data =
  books :: "book list"
  authors :: "(string \<times> string) list"
  genres :: "(string \<times> string) list"
  BOOKS_PER_PAGE :: int

text \<open>The object read from the search form: its three fields, all present.\<close>

record filters =
  title :: string
  author :: string
  genre :: string

section \<open>The filter engine\<close>

text \<open>
  The \<^verbatim>\<open>for\<close> loop of \<^verbatim>\<open>applyFilters\<close> over \<^verbatim>\<open>book.genres\<close>: it leaves at the first
  iteration that finds \<^verbatim>\<open>genreMatch\<close> set, and sets it when the genre at hand is the one
  asked for.
\<close>

fun genreLoop :: "string \<Rightarrow> string list \<Rightarrow> bool \<Rightarrow> bool" where
  "genreLoop g [] genreMatch = genreMatch"
| "genreLoop g (singleGenre # rest) genreMatch =
     (if genreMatch then genreMatch
      else genreLoop g rest (if singleGenre = g then True else genreMatch))"

definition titleMatch :: "filters \<Rightarrow> book \<Rightarrow> bool" where
  "titleMatch f b =
     (trim (title f) = [] \<or> includesS (toLowerCase (book_title b)) (toLowerCase (title f)))"

definition authorMatch :: "filters \<Rightarrow> book \<Rightarrow> bool" where
  "authorMatch f b = (author f = ''any'' \<or> book_author b = author f)"

definition bookMatch :: "filters \<Rightarrow> book \<Rightarrow> bool" where
  "bookMatch f b =
     (let genreMatch = genreLoop (genre f) (book_genres b) (genre f = ''any'')
      in titleMatch f b \<and> authorMatch f b \<and> genreMatch)"

definition applyFilters :: "data \<Rightarrow> filters \<Rightarrow> book list" where
  "applyFilters D f = filter (bookMatch f) (books D)"

text \<open>
  The words of the specification for the title constraint: one string contains another
  case-insensitively when, both lowered, the second lies inside the first.
\<close>

definition containsCI :: "string \<Rightarrow> string \<Rightarrow> bool" where
  "containsCI hay needle =
     (\<exists>pre suf. toLowerCase hay = pre @ toLowerCase needle @ suf)"

section \<open>Arrays and numbers of the host language\<close>

text \<open>
  \<^verbatim>\<open>Array.prototype.slice(start, end)\<close>: a negative bound counts from the end of the array,
  both bounds are clamped to the length, and the elements from the first bound up to, not
  including, the second are copied. Nothing is copied, and nothing fails, when the first
  bound is not below the second.
\<close>

definition sliceRange :: "int \<Rightarrow> int \<Rightarrow> nat \<Rightarrow> nat \<times> nat" where
  "sliceRange start endI len =
     (let n = int len;
          k = (if start < 0 then max (n + start) 0 else min start n);
          final = (if endI < 0 then max (n + endI) 0 else min endI n)
      in (nat k, nat final))"

definition slice :: "int \<Rightarrow> int \<Rightarrow> 'a list \<Rightarrow> 'a list" where
  "slice start endI xs =
     (case sliceRange start endI (length xs) of (k, final) \<Rightarrow> map (nth xs) [k..<final])"

text \<open>The decimal text of an integer, as a template literal writes it.\<close>

fun digits :: "nat \<Rightarrow> string" where
  "digits n = (if n < 10 then [char_of (48 + n)] else digits (n div 10) @ [char_of (48 + n mod 10)])"

declare digits.simps [simp del]

definition numberToString :: "int \<Rightarrow> string" where
  "numberToString i = (if i < 0 then CHR ''-'' # digits (nat (- i)) else digits (nat i))"

section \<open>The document and the application state\<close>

text \<open>
  Modelled from the spec: \<^verbatim>\<open>createBookElement\<close> of \<^verbatim>\<open>utils/helper.js\<close>, which is not among
  the sources. It maps an entry's author key, id, image and title into one element that
  carries the entry id as its reference tag.
\<close>

record element =
  el_preview :: string
  el_author :: string
  el_image :: string
  el_title :: string

definition createBookElement :: "string \<Rightarrow> string \<Rightarrow> string \<Rightarrow> string \<Rightarrow> element" where
  "createBookElement author_key ident image_uri title_text =
     \<lparr>el_preview = ident, el_author = author_key, el_image = image_uri, el_title = title_text\<rparr>"

text \<open>
  Modelled from the spec: \<^verbatim>\<open>createOptionElement\<close> of \<^verbatim>\<open>utils/helper.js\<close>, which is not among
  the sources. The first option stands for "match anything", with the value \<^verbatim>\<open>any\<close> and the
  given label; one option per entry of the mapping follows, value the key, text the name.
\<close>

definition createOptionElement :: "(string \<times> string) list \<Rightarrow> string \<Rightarrow> (string \<times> string) list" where
  "createOptionElement mapping allLabel = (''any'', allLabel) # mapping"

text \<open>
  The document, as far as \<^verbatim>\<open>scripts.js\<close> writes it: one field per mount point and property.
  The mount points named by the fixed selectors are taken to exist, as the markup provides
  them. Scrolling and focus are left out.
\<close>

record dom =
  list_items :: "element list"
  search_genres :: "(string \<times> string) list"
  search_authors :: "(string \<times> string) list"
  settings_theme :: "string option"
  color_dark :: string
  color_light :: string
  list_button :: string
  list_message_show :: bool
  search_overlay :: bool
  settings_overlay :: bool
  list_active :: bool
  list_blur :: string
  list_image :: string
  list_title :: string
  list_subtitle :: string
  list_description :: string

text \<open>The module variables \<^verbatim>\<open>page\<close> and \<^verbatim>\<open>matches\<close>, and the document.\<close>

record state =
  page :: int
  matches :: "book list"
  doc :: dom

text \<open>
  What the host provides: \<^verbatim>\<open>window.matchMedia\<close>, which may be absent, answering a media
  query with its \<^verbatim>\<open>matches\<close> flag; and the text of \<^verbatim>\<open>new Date(p).getFullYear()\<close>.
\<close>

record host =
  matchMedia :: "(string \<Rightarrow> bool) option"
  getFullYear :: "string \<Rightarrow> string"

section \<open>Rendering the list\<close>

definition renderBooks :: "book list \<Rightarrow> element list" where
  "renderBooks bs =
     map (\<lambda>b. createBookElement (book_author b) (book_id b) (book_image b) (book_title b)) bs"

definition initialBooks :: "data \<Rightarrow> state \<Rightarrow> element list" where
  "initialBooks D s = renderBooks (slice 0 (BOOKS_PER_PAGE D) (matches s))"

definition createBookList :: "data \<Rightarrow> state \<Rightarrow> state" where
  "createBookList D s = s\<lparr>doc := (doc s)\<lparr>list_items := list_items (doc s) @ initialBooks D s\<rparr>\<rparr>"

definition createOptionLists :: "data \<Rightarrow> dom \<Rightarrow> dom" where
  "createOptionLists D d =
     (let genreHtml = createOptionElement (genres D) ''All Genres'';
          authorHtml = createOptionElement (authors D) ''All Authors''
      in d\<lparr>search_genres := search_genres d @ genreHtml,
            search_authors := search_authors d @ authorHtml\<rparr>)"

definition remainingBooks :: "data \<Rightarrow> int" where
  "remainingBooks D = max (int (length (books D)) - BOOKS_PER_PAGE D) 0"

definition updateShowMoreButton :: "data \<Rightarrow> dom \<Rightarrow> dom" where
  "updateShowMoreButton D d =
     d\<lparr>list_button := ''Show more ('' @ numberToString (remainingBooks D) @ '')''\<rparr>"

section \<open>The theme\<close>

record palette =
  darkColor :: string
  lightColor :: string

text \<open>The theme is the value of a form field: a string, or nothing when the field is absent.\<close>

definition colors :: "string option \<Rightarrow> palette" where
  "colors theme =
     \<lparr>darkColor = (if theme = Some ''night'' then ''255, 255, 255'' else ''10, 10, 20''),
      lightColor = (if theme = Some ''night'' then ''10, 10, 20'' else ''255, 255, 255'')\<rparr>"

definition setThemeColors :: "string option \<Rightarrow> dom \<Rightarrow> dom" where
  "setThemeColors theme d =
     d\<lparr>settings_theme := theme,
       color_dark := darkColor (colors theme),
       color_light := lightColor (colors theme)\<rparr>"

definition preferredTheme :: "host \<Rightarrow> string" where
  "preferredTheme h =
     (case matchMedia h of
        None \<Rightarrow> ''day''
      | Some query \<Rightarrow> if query ''(prefers-color-scheme: dark)'' then ''night'' else ''day'')"

definition checkAndSetTheme :: "host \<Rightarrow> dom \<Rightarrow> dom" where
  "checkAndSetTheme h d = setThemeColors (Some (preferredTheme h)) d"

section \<open>Start-up\<close>

definition initialize :: "data \<Rightarrow> host \<Rightarrow> state \<Rightarrow> state" where
  "initialize D h s =
     (let s1 = createBookList D s
      in s1\<lparr>doc := updateShowMoreButton D (checkAndSetTheme h (createOptionLists D (doc s1)))\<rparr>)"

text \<open>Loading the script on a document \<open>d0\<close>: the module variables are set, then \<^verbatim>\<open>initialize\<close> runs.\<close>

definition load :: "data \<Rightarrow> host \<Rightarrow> dom \<Rightarrow> state" where
  "load D h d0 = initialize D h \<lparr>page = 1, matches = books D, doc = d0\<rparr>"

section \<open>The handlers\<close>

definition handleSettingsFormSubmit :: "string option \<Rightarrow> state \<Rightarrow> state" where
  "handleSettingsFormSubmit theme s =
     s\<lparr>doc := (setThemeColors theme (doc s))\<lparr>settings_overlay := False\<rparr>\<rparr>"

definition updateBookList :: "data \<Rightarrow> book list \<Rightarrow> state \<Rightarrow> state" where
  "updateBookList D result s =
     (let s1 = s\<lparr>page := 1, matches := result\<rparr>;
          s2 = s1\<lparr>doc := (doc s1)\<lparr>list_message_show := (length result < 1), list_items := []\<rparr>\<rparr>;
          s3 = createBookList D s2
      in s3\<lparr>doc := (updateShowMoreButton D (doc s3))\<lparr>search_overlay := False\<rparr>\<rparr>)"

definition handleSearchFormSubmit :: "data \<Rightarrow> filters \<Rightarrow> state \<Rightarrow> state" where
  "handleSearchFormSubmit D f s = updateBookList D (applyFilters D f) s"

text \<open>
  The indices of \<^verbatim>\<open>matches\<close> that \<^verbatim>\<open>createBookList\<close> and the show-more handler read: the
  ranges of their calls of \<^verbatim>\<open>slice\<close>.
\<close>

definition firstWindow :: "data \<Rightarrow> state \<Rightarrow> nat set" where
  "firstWindow D s =
     (case sliceRange 0 (BOOKS_PER_PAGE D) (length (matches s)) of (k, final) \<Rightarrow> {k..<final})"

definition showMoreWindow :: "data \<Rightarrow> state \<Rightarrow> nat set" where
  "showMoreWindow D s =
     (let start = page s * BOOKS_PER_PAGE D;
          endI = (page s + 1) * BOOKS_PER_PAGE D
      in case sliceRange start endI (length (matches s)) of (k, final) \<Rightarrow> {k..<final})"

definition additionalBooks :: "data \<Rightarrow> state \<Rightarrow> element list" where
  "additionalBooks D s =
     (let start = page s * BOOKS_PER_PAGE D;
          endI = (page s + 1) * BOOKS_PER_PAGE D
      in renderBooks (slice start endI (matches s)))"

definition handleShowMoreButtonClick :: "data \<Rightarrow> state \<Rightarrow> state" where
  "handleShowMoreButtonClick D s =
     s\<lparr>doc := (doc s)\<lparr>list_items := list_items (doc s) @ additionalBooks D s\<rparr>,
       page := page s + 1\<rparr>"

text \<open>
  A node of an event path: it may be null, it may have no \<^verbatim>\<open>dataset\<close>, and the dataset may
  have no \<^verbatim>\<open>preview\<close>. \<^verbatim>\<open>node?.dataset?.preview\<close> is truthy when all three are there and the
  tag is not the empty string.
\<close>

datatype dataset = Dataset (preview: "string option")

datatype node = Node (dataset: "dataset option")

definition nodePreview :: "node option \<Rightarrow> string option" where
  "nodePreview n =
     (case n of
        None \<Rightarrow> None
      | Some nd \<Rightarrow> (case dataset nd of None \<Rightarrow> None | Some ds \<Rightarrow> preview ds))"

definition findActiveBook :: "data \<Rightarrow> string \<Rightarrow> book option" where
  "findActiveBook D ident = find (\<lambda>b. book_id b = ident) (books D)"

fun pathLoop :: "data \<Rightarrow> node option list \<Rightarrow> book option \<Rightarrow> book option" where
  "pathLoop D [] active = active"
| "pathLoop D (n # pathArray) active =
     (if active \<noteq> None then active
      else pathLoop D pathArray
             (case nodePreview n of
                None \<Rightarrow> active
              | Some tag \<Rightarrow> if tag \<noteq> [] then findActiveBook D tag else active))"

definition showActiveBook :: "data \<Rightarrow> host \<Rightarrow> book \<Rightarrow> dom \<Rightarrow> dom" where
  "showActiveBook D h active d =
     d\<lparr>list_active := True,
       list_blur := book_image active,
       list_image := book_image active,
       list_title := book_title active,
       list_subtitle :=
         (case map_of (authors D) (book_author active) of
            None \<Rightarrow> ''undefined'' | Some name \<Rightarrow> name)
         @ '' ('' @ getFullYear h (book_published active) @ '')'',
       list_description := book_description active\<rparr>"

definition handleListItemClick :: "data \<Rightarrow> host \<Rightarrow> node option list \<Rightarrow> state \<Rightarrow> state" where
  "handleListItemClick D h pathArray s =
     (case pathLoop D pathArray None of
        None \<Rightarrow> s
      | Some active \<Rightarrow> s\<lparr>doc := showActiveBook D h active (doc s)\<rparr>)"

text \<open>The listeners that \<^verbatim>\<open>setupEventListeners\<close> registers, one event each.\<close>

datatype event =
    SearchCancel
  | SettingsCancel
  | HeaderSearch
  | HeaderSettings
  | ListClose
  | SettingsSubmit "string option"
  | SearchSubmit filters
  | ShowMore
  | ListItemClick "node option list"

fun handle :: "data \<Rightarrow> host \<Rightarrow> event \<Rightarrow> state \<Rightarrow> state" where
  "handle D h SearchCancel s = s\<lparr>doc := (doc s)\<lparr>search_overlay := False\<rparr>\<rparr>"
| "handle D h SettingsCancel s = s\<lparr>doc := (doc s)\<lparr>settings_overlay := False\<rparr>\<rparr>"
| "handle D h HeaderSearch s = s\<lparr>doc := (doc s)\<lparr>search_overlay := True\<rparr>\<rparr>"
| "handle D h HeaderSettings s = s\<lparr>doc := (doc s)\<lparr>settings_overlay := True\<rparr>\<rparr>"
| "handle D h ListClose s = s\<lparr>doc := (doc s)\<lparr>list_active := False\<rparr>\<rparr>"
| "handle D h (SettingsSubmit theme) s = handleSettingsFormSubmit theme s"
| "handle D h (SearchSubmit f) s = handleSearchFormSubmit D f s"
| "handle D h ShowMore s = handleShowMoreButtonClick D s"
| "handle D h (ListItemClick pathArray) s = handleListItemClick D h pathArray s"

text \<open>The state after the script has loaded and the events of a list have been handled in turn.\<close>

definition run :: "data \<Rightarrow> host \<Rightarrow> dom \<Rightarrow> event list \<Rightarrow> state" where
  "run D h d0 evs = foldl (\<lambda>s e. handle D h e s) (load D h d0) evs"

text \<open>
  The number of entries on display according to the cursor: \<^verbatim>\<open>page\<close> pages, cut at the
  length of \<^verbatim>\<open>matches\<close>.
\<close>

definition rendered_count :: "data \<Rightarrow> state \<Rightarrow> int" where
  "rendered_count D s = min (page s * BOOKS_PER_PAGE D) (int (length (matches s)))"

section \<open>The filter criteria in the words of the specification\<close>

text \<open>
  The three constraints, with the title constraint read on the trimmed criterion: the
  trimmed title is empty, or the entry's title contains the trimmed title.
\<close>

definition passesTrimmed :: "filters \<Rightarrow> book \<Rightarrow> bool" where
  "passesTrimmed f b =
     ((trim (title f) = [] \<or> containsCI (book_title b) (trim (title f))) \<and>
      (author f = ''any'' \<or> author f = book_author b) \<and>
      (genre f = ''any'' \<or> genre f \<in> set (book_genres b)))"

section \<open>Example data\<close>

definition exampleBook :: "string \<Rightarrow> string \<Rightarrow> book" where
  "exampleBook ident title_text =
     \<lparr>book_id = ident, book_title = title_text, book_author = ''herbert'',
      book_image = ''cover.png'', book_description = ''A novel'',
      book_published = ''1965-08-01'', book_genres = [''scifi'']\<rparr>"

definition exampleData :: "book list \<Rightarrow> int \<Rightarrow> data" where
  "exampleData bs n =
     \<lparr>books = bs, authors = [(''herbert'', ''Frank Herbert'')],
      genres = [(''scifi'', ''Science Fiction'')], BOOKS_PER_PAGE = n\<rparr>"

definition fiveBooks :: "book list" where
  "fiveBooks =
     [exampleBook ''b0'' ''Dune'', exampleBook ''b1'' ''Dune Messiah'',
      exampleBook ''b2'' ''Children of Dune'', exampleBook ''b3'' ''God Emperor'',
      exampleBook ''b4'' ''Heretics'']"

definition exampleHost :: "bool option \<Rightarrow> host" where
  "exampleHost dark =
     \<lparr>matchMedia = map_option (\<lambda>d q. d \<and> q = ''(prefers-color-scheme: dark)'') dark,
      getFullYear = take 4\<rparr>"

definition emptyDom :: dom where
  "emptyDom =
     \<lparr>list_items = [], search_genres = [], search_authors = [], settings_theme = None,
      color_dark = [], color_light = [], list_button = [], list_message_show = False,
      search_overlay = False, settings_overlay = False, list_active = False,
      list_blur = [], list_image = [], list_title = [], list_subtitle = [],
      list_description = []\<rparr>"

section \<open>What the list shows\<close>

text \<open>
  The cursor is at least 1, and the list holds the first \<^verbatim>\<open>page\<close> pages of \<^verbatim>\<open>matches\<close>,
  after what the document \<open>d0\<close> had in the list when the script was loaded, or after
  nothing once a search has emptied the list.
\<close>

definition shown :: "data \<Rightarrow> dom \<Rightarrow> state \<Rightarrow> bool" where
  "shown D d0 s \<longleftrightarrow> 1 \<le> page s \<and>
     (\<exists>pre. (pre = [] \<or> pre = list_items d0) \<and>
        list_items (doc s) = pre @ renderBooks (take (nat (page s * BOOKS_PER_PAGE D)) (matches s)))"

section \<open>Properties of the filter engine\<close>

lemma includes_iff: "includesS s t \<longleftrightarrow> (\<exists>pre suf. s = pre @ t @ suf)"
proof (induction s)
  case Nil
  then show ?case by auto
next
  case (Cons c s)
  show ?case
  proof
    assume "includesS (c # s) t"
    then consider "take (length t) (c # s) = t" | "includesS s t" by auto
    then show "\<exists>pre suf. c # s = pre @ t @ suf"
    proof cases
      case 1
      then have "c # s = [] @ t @ drop (length t) (c # s)"
        by (metis append_Nil append_take_drop_id)
      then show ?thesis by blast
    next
      case 2
      with Cons.IH obtain pre suf where "s = pre @ t @ suf" by blast
      then have "c # s = (c # pre) @ t @ suf" by simp
      then show ?thesis by blast
    qed
  next
    assume "\<exists>pre suf. c # s = pre @ t @ suf"
    then obtain pre suf where eq: "c # s = pre @ t @ suf" by blast
    show "includesS (c # s) t"
    proof (cases pre)
      case Nil
      with eq have "take (length t) (c # s) = t" by simp
      then show ?thesis by simp
    next
      case (Cons p pre')
      with eq have "s = pre' @ t @ suf" by simp
      with Cons.IH have "includesS s t" by blast
      then show ?thesis by simp
    qed
  qed
qed

lemma genreLoop_iff: "genreLoop g gs m \<longleftrightarrow> m \<or> g \<in> set gs"
  by (induction gs arbitrary: m) auto

lemma bookMatch_iff:
  "bookMatch f b \<longleftrightarrow>
     (trim (title f) = [] \<or> containsCI (book_title b) (title f)) \<and>
     (author f = ''any'' \<or> author f = book_author b) \<and>
     (genre f = ''any'' \<or> genre f \<in> set (book_genres b))"
  by (auto simp: bookMatch_def titleMatch_def authorMatch_def containsCI_def
      includes_iff genreLoop_iff)

lemma containsCI_includes:
  "containsCI hay needle \<longleftrightarrow> includesS (toLowerCase hay) (toLowerCase needle)"
  by (simp add: containsCI_def includes_iff)

text \<open>
  C1, as amended. The result of \<^const>\<open>applyFilters\<close> is a subsequence of the catalog in
  the catalog's order, and it holds exactly the entries of the catalog that pass all three
  constraints: the trimmed title criterion is empty or the entry's title contains the title
  criterion as it was entered, not trimmed, case-insensitively; the author criterion is
  \<^verbatim>\<open>any\<close> or equals the entry's author key; the genre criterion is \<^verbatim>\<open>any\<close> or is one of
  the entry's genres.
\<close>

theorem applyFilters_characterisation:
  "subseq (applyFilters D f) (books D) \<and>
   applyFilters D f =
     filter (\<lambda>b. (trim (title f) = [] \<or> containsCI (book_title b) (title f)) \<and>
                 (author f = ''any'' \<or> author f = book_author b) \<and>
                 (genre f = ''any'' \<or> genre f \<in> set (book_genres b))) (books D) \<and>
   (\<forall>b. b \<in> set (applyFilters D f) \<longleftrightarrow>
      b \<in> set (books D) \<and>
      (trim (title f) = [] \<or> containsCI (book_title b) (title f)) \<and>
      (author f = ''any'' \<or> author f = book_author b) \<and>
      (genre f = ''any'' \<or> genre f \<in> set (book_genres b)))"
proof -
  have "subseq (applyFilters D f) (books D)"
    by (simp add: applyFilters_def)
  moreover have "applyFilters D f =
     filter (\<lambda>b. (trim (title f) = [] \<or> containsCI (book_title b) (title f)) \<and>
                 (author f = ''any'' \<or> author f = book_author b) \<and>
                 (genre f = ''any'' \<or> genre f \<in> set (book_genres b))) (books D)"
    unfolding applyFilters_def by (rule filter_cong) (simp_all add: bookMatch_iff)
  ultimately show ?thesis by auto
qed

text \<open>
  C1, as stated, fails. With the title criterion \<^verbatim>\<open>" dune"\<close> the trimmed criterion is
  \<^verbatim>\<open>"dune"\<close>, which the title \<^verbatim>\<open>"Dune"\<close> contains case-insensitively, and both other
  criteria are \<^verbatim>\<open>any\<close>; the entry is in the catalog and yet not in the result, since the
  code searches for the criterion with its leading blank.
\<close>

theorem applyFilters_trimmed_counterexample:
  "passesTrimmed \<lparr>title = '' dune'', author = ''any'', genre = ''any''\<rparr>
     (exampleBook ''b0'' ''Dune'') \<and>
   exampleBook ''b0'' ''Dune'' \<in> set (books (exampleData [exampleBook ''b0'' ''Dune''] 2)) \<and>
   exampleBook ''b0'' ''Dune'' \<notin>
     set (applyFilters (exampleData [exampleBook ''b0'' ''Dune''] 2)
            \<lparr>title = '' dune'', author = ''any'', genre = ''any''\<rparr>)"
proof -
  have tr: "trim '' dune'' = ''dune''" by code_simp
  have low: "toLowerCase ''Dune'' = ''dune''" "toLowerCase ''dune'' = ''dune''"
    "toLowerCase '' dune'' = '' dune''"
    by code_simp+
  have "passesTrimmed \<lparr>title = '' dune'', author = ''any'', genre = ''any''\<rparr>
     (exampleBook ''b0'' ''Dune'')"
    by (simp add: passesTrimmed_def exampleBook_def tr containsCI_includes low)
  moreover have "\<not> bookMatch \<lparr>title = '' dune'', author = ''any'', genre = ''any''\<rparr>
     (exampleBook ''b0'' ''Dune'')"
    by (simp add: bookMatch_def titleMatch_def exampleBook_def tr low)
  ultimately show ?thesis
    by (simp add: applyFilters_def exampleData_def)
qed

text \<open>
  C5. The title constraint passes exactly when the trimmed title criterion is empty or the
  entry's title contains the title criterion case-insensitively. The criterion \<^verbatim>\<open>DUNE\<close>
  passes on an entry titled \<^verbatim>\<open>Dune Messiah\<close>, and with both other criteria \<^verbatim>\<open>any\<close> the
  entry matches.
\<close>

theorem titleMatch_iff:
  "(titleMatch f b \<longleftrightarrow> trim (title f) = [] \<or> containsCI (book_title b) (title f)) \<and>
   titleMatch \<lparr>title = ''DUNE'', author = ''any'', genre = ''any''\<rparr>
     (b\<lparr>book_title := ''Dune Messiah''\<rparr>) \<and>
   bookMatch \<lparr>title = ''DUNE'', author = ''any'', genre = ''any''\<rparr>
     (b\<lparr>book_title := ''Dune Messiah''\<rparr>)"
proof -
  have low: "toLowerCase ''DUNE'' = ''dune''" "toLowerCase ''Dune Messiah'' = ''dune messiah''"
    by code_simp+
  have inc: "includesS ''dune messiah'' ''dune''" by simp
  have ex: "titleMatch \<lparr>title = ''DUNE'', author = ''any'', genre = ''any''\<rparr>
     (b\<lparr>book_title := ''Dune Messiah''\<rparr>)"
    by (simp add: titleMatch_def low inc)
  moreover have "titleMatch f b \<longleftrightarrow> trim (title f) = [] \<or> containsCI (book_title b) (title f)"
    by (simp add: titleMatch_def containsCI_includes)
  moreover have "bookMatch \<lparr>title = ''DUNE'', author = ''any'', genre = ''any''\<rparr>
     (b\<lparr>book_title := ''Dune Messiah''\<rparr>)"
    using ex by (simp add: bookMatch_def authorMatch_def genreLoop_iff)
  ultimately show ?thesis by blast
qed

text \<open>
  C9. The criteria with the empty title and \<^verbatim>\<open>any\<close> for author and genre give back the
  whole catalog, same entries in the same order.
\<close>

theorem applyFilters_identity:
  "applyFilters D \<lparr>title = [], author = ''any'', genre = ''any''\<rparr> = books D"
  by (simp add: applyFilters_def bookMatch_def titleMatch_def authorMatch_def trim_def
      genreLoop_iff)

section \<open>Properties of the theme\<close>

text \<open>
  C6. The dark colour of the night palette is the light colour of the day palette, and the
  other way round: for \<^verbatim>\<open>night\<close> the dark colour is \<^verbatim>\<open>255, 255, 255\<close> and the light colour
  \<^verbatim>\<open>10, 10, 20\<close>, for \<^verbatim>\<open>day\<close> the two are swapped; \<^const>\<open>setThemeColors\<close> writes them to
  the two style variables.
\<close>

theorem theme_palette_swap:
  "darkColor (colors (Some ''night'')) = lightColor (colors (Some ''day'')) \<and>
   lightColor (colors (Some ''night'')) = darkColor (colors (Some ''day'')) \<and>
   colors (Some ''night'') = \<lparr>darkColor = ''255, 255, 255'', lightColor = ''10, 10, 20''\<rparr> \<and>
   colors (Some ''day'') = \<lparr>darkColor = ''10, 10, 20'', lightColor = ''255, 255, 255''\<rparr> \<and>
   color_dark (setThemeColors (Some ''night'') d) = color_light (setThemeColors (Some ''day'') d) \<and>
   color_light (setThemeColors (Some ''night'') d) = color_dark (setThemeColors (Some ''day'') d)"
  by (simp add: colors_def setThemeColors_def)

text \<open>
  C7. When the host has no \<^verbatim>\<open>matchMedia\<close>, the theme chosen at start-up is \<^verbatim>\<open>day\<close> and the
  day palette is applied; when it has one and the query for a dark colour scheme matches,
  the theme is \<^verbatim>\<open>night\<close> and the night palette is applied.
\<close>

theorem checkAndSetTheme_fallback:
  "(matchMedia h = None \<longrightarrow>
      preferredTheme h = ''day'' \<and> settings_theme (checkAndSetTheme h d) = Some ''day'' \<and>
      color_dark (checkAndSetTheme h d) = ''10, 10, 20'' \<and>
      color_light (checkAndSetTheme h d) = ''255, 255, 255'') \<and>
   (\<forall>query. matchMedia h = Some query \<and> query ''(prefers-color-scheme: dark)'' \<longrightarrow>
      preferredTheme h = ''night'' \<and> settings_theme (checkAndSetTheme h d) = Some ''night'' \<and>
      color_dark (checkAndSetTheme h d) = ''255, 255, 255'' \<and>
      color_light (checkAndSetTheme h d) = ''10, 10, 20'')"
  by (auto simp: preferredTheme_def checkAndSetTheme_def setThemeColors_def colors_def)

theorem checkAndSetTheme_fallback_witness:
  "matchMedia (exampleHost None) = None \<and>
   settings_theme (checkAndSetTheme (exampleHost None) emptyDom) = Some ''day'' \<and>
   matchMedia (exampleHost (Some True)) =
     Some (\<lambda>q. True \<and> q = ''(prefers-color-scheme: dark)'') \<and>
   settings_theme (checkAndSetTheme (exampleHost (Some True)) emptyDom) = Some ''night'' \<and>
   color_dark (checkAndSetTheme (exampleHost (Some True)) emptyDom) = ''255, 255, 255''"
proof -
  have none: "matchMedia (exampleHost None) = None"
    by (simp add: exampleHost_def)
  have some: "matchMedia (exampleHost (Some True)) =
     Some (\<lambda>q. True \<and> q = ''(prefers-color-scheme: dark)'')"
    by (simp add: exampleHost_def)
  show ?thesis
    using checkAndSetTheme_fallback [of "exampleHost None" emptyDom]
      checkAndSetTheme_fallback [of "exampleHost (Some True)" emptyDom] none some
    by simp
qed

text \<open>
  C10. For every theme value other than the string \<^verbatim>\<open>night\<close>, an absent value among them,
  \<^const>\<open>setThemeColors\<close> applies the day palette, dark colour \<^verbatim>\<open>10, 10, 20\<close> and light
  colour \<^verbatim>\<open>255, 255, 255\<close>; the night palette is applied for \<^verbatim>\<open>night\<close> and for nothing
  else.
\<close>

theorem setThemeColors_day_unless_night:
  "(theme \<noteq> Some ''night'' \<longrightarrow>
      color_dark (setThemeColors theme d) = ''10, 10, 20'' \<and>
      color_light (setThemeColors theme d) = ''255, 255, 255'') \<and>
   (color_dark (setThemeColors theme d) = ''255, 255, 255'' \<and>
    color_light (setThemeColors theme d) = ''10, 10, 20'' \<longleftrightarrow> theme = Some ''night'')"
  by (simp add: colors_def setThemeColors_def)

theorem setThemeColors_day_unless_night_witness:
  "Some ''Night'' \<noteq> Some ''night'' \<and> (None :: string option) \<noteq> Some ''night'' \<and>
   color_dark (setThemeColors (Some ''Night'') emptyDom) = ''10, 10, 20'' \<and>
   color_light (setThemeColors None emptyDom) = ''255, 255, 255''"
  using setThemeColors_day_unless_night [of "Some ''Night''" emptyDom]
    setThemeColors_day_unless_night [of None emptyDom]
  by simp

section \<open>Properties of the click on a list item\<close>

lemma pathLoop_untagged:
  "\<forall>n\<in>set pathArray. nodePreview n = None \<or> nodePreview n = Some [] \<Longrightarrow>
   pathLoop D pathArray active = active"
  by (induction pathArray arbitrary: active) (auto split: option.splits)

text \<open>
  C8. When no node of the event path carries an entry-reference tag, the click handler
  does nothing: the walk along the path finds no book, and the state, with the detail
  overlay in it, is left as it was.
\<close>

theorem handleListItemClick_noop:
  "\<forall>n\<in>set pathArray. nodePreview n = None \<Longrightarrow>
   pathLoop D pathArray None = None \<and> handleListItemClick D h pathArray s = s"
proof -
  assume "\<forall>n\<in>set pathArray. nodePreview n = None"
  then have "pathLoop D pathArray None = None"
    by (simp add: pathLoop_untagged)
  then show ?thesis by (simp add: handleListItemClick_def)
qed

theorem handleListItemClick_noop_witness:
  "nodePreview None = None \<and> nodePreview (Some (Node None)) = None \<and>
   nodePreview (Some (Node (Some (Dataset None)))) = None \<and>
   handleListItemClick (exampleData fiveBooks 2) (exampleHost None)
     [Some (Node (Some (Dataset None))), Some (Node None), None]
     (load (exampleData fiveBooks 2) (exampleHost None) emptyDom) =
   load (exampleData fiveBooks 2) (exampleHost None) emptyDom"
  using handleListItemClick_noop [of "[Some (Node (Some (Dataset None))), Some (Node None), None]"
      "exampleData fiveBooks 2" "exampleHost None" "load (exampleData fiveBooks 2) (exampleHost None) emptyDom"]
  by (simp add: nodePreview_def)

section \<open>Properties of the show-more label\<close>

lemma run_snoc: "run D h d0 (evs @ [e]) = handle D h e (run D h d0 evs)"
  by (simp add: run_def)

lemma run_Nil: "run D h d0 [] = load D h d0"
  by (simp add: run_def)

lemma list_button_createBookList [simp]:
  "list_button (doc (createBookList D s)) = list_button (doc s)"
  by (simp add: createBookList_def)

lemma list_button_updateShowMoreButton [simp]:
  "list_button (updateShowMoreButton D d) = ''Show more ('' @ numberToString (remainingBooks D) @ '')''"
  by (simp add: updateShowMoreButton_def)

lemma list_button_load:
  "list_button (doc (load D h d0)) = ''Show more ('' @ numberToString (remainingBooks D) @ '')''"
  by (simp add: load_def initialize_def Let_def)

lemma list_button_updateBookList:
  "list_button (doc (updateBookList D result s)) = ''Show more ('' @ numberToString (remainingBooks D) @ '')''"
  by (simp add: updateBookList_def Let_def)

lemma list_button_handle:
  "list_button (doc (handle D h e s)) =
     (case e of SearchSubmit f \<Rightarrow> ''Show more ('' @ numberToString (remainingBooks D) @ '')''
      | _ \<Rightarrow> list_button (doc s))"
  by (cases e)
    (simp_all add: handleSettingsFormSubmit_def setThemeColors_def handleSearchFormSubmit_def
      list_button_updateBookList handleShowMoreButtonClick_def handleListItemClick_def
      showActiveBook_def split: option.splits)

lemma list_button_run:
  "list_button (doc (run D h d0 evs)) = ''Show more ('' @ numberToString (remainingBooks D) @ '')''"
proof (induction evs rule: rev_induct)
  case Nil
  show ?case by (simp add: run_Nil list_button_load)
next
  case (snoc e evs)
  then show ?case
    by (simp add: run_snoc list_button_handle split: event.splits)
qed

text \<open>
  C3. The count on the show-more button is the catalog length less the page size, or zero
  when that is negative. It is taken from the whole catalog, not from the matched set: in
  every state the application reaches, and after every search whatever its result, the
  label is the one written at start-up, and a show-more click leaves it as it is.
\<close>

theorem showMore_label_from_catalog:
  "remainingBooks D = max (int (length (books D)) - BOOKS_PER_PAGE D) 0 \<and>
   list_button (doc (run D h d0 evs)) =
     ''Show more ('' @ numberToString (max (int (length (books D)) - BOOKS_PER_PAGE D) 0) @ '')'' \<and>
   list_button (doc (updateBookList D result s)) =
     ''Show more ('' @ numberToString (max (int (length (books D)) - BOOKS_PER_PAGE D) 0) @ '')'' \<and>
   list_button (doc (handleShowMoreButtonClick D s)) = list_button (doc s)"
  using list_button_run [of D h d0 evs] list_button_updateBookList [of D result s]
  by (simp add: remainingBooks_def handleShowMoreButtonClick_def)

lemma showMore_label_example:
  "list_button (doc (run (exampleData fiveBooks 2) (exampleHost None) emptyDom
      [SearchSubmit \<lparr>title = ''messiah'', author = ''any'', genre = ''any''\<rparr>])) = ''Show more (3)'' \<and>
   length (matches (run (exampleData fiveBooks 2) (exampleHost None) emptyDom
      [SearchSubmit \<lparr>title = ''messiah'', author = ''any'', genre = ''any''\<rparr>])) = 1"
  by code_simp

section \<open>Properties of the page cursor\<close>

lemma sliceRange_nonneg:
  "0 \<le> a \<Longrightarrow> 0 \<le> b \<Longrightarrow>
   sliceRange a b len = (nat (min a (int len)), nat (min b (int len)))"
  by (simp add: sliceRange_def Let_def)

lemma map_nth_upt:
  "j \<le> length xs \<Longrightarrow> map (nth xs) [i..<j] = drop i (take j xs)"
  by (rule nth_equalityI) auto

lemma slice_drop_take:
  assumes "0 \<le> a" "0 \<le> b"
  shows "slice a b xs = drop (nat a) (take (nat b) xs)"
proof -
  have "slice a b xs = map (nth xs) [nat (min a (int (length xs)))..<nat (min b (int (length xs)))]"
    using assms by (simp add: slice_def sliceRange_nonneg)
  also have "\<dots> = drop (nat (min a (int (length xs)))) (take (nat (min b (int (length xs)))) xs)"
    by (rule map_nth_upt) simp
  also have "take (nat (min b (int (length xs)))) xs = take (nat b) xs"
    by (cases "b \<le> int (length xs)") (simp_all add: min_def)
  also have "drop (nat (min a (int (length xs)))) (take (nat b) xs) = drop (nat a) (take (nat b) xs)"
  proof (cases "a \<le> int (length xs)")
    case True
    then show ?thesis by (simp add: min_def)
  next
    case False
    then have "length (take (nat b) xs) \<le> nat (min a (int (length xs)))"
      "length (take (nat b) xs) \<le> nat a"
      by simp_all
    then show ?thesis by (simp only: drop_all)
  qed
  finally show ?thesis .
qed

lemma take_append_slice:
  assumes "0 \<le> a" "a \<le> b"
  shows "take (nat a) xs @ slice a b xs = take (nat b) xs"
proof -
  have "nat a \<le> nat b" using assms by simp
  then have "take (nat a) (take (nat b) xs) = take (nat a) xs"
    by (simp add: min_absorb1)
  moreover have "take (nat a) (take (nat b) xs) @ drop (nat a) (take (nat b) xs) = take (nat b) xs"
    by (rule append_take_drop_id)
  moreover have "slice a b xs = drop (nat a) (take (nat b) xs)"
    using assms by (intro slice_drop_take) simp_all
  ultimately show ?thesis by simp
qed

lemma renderBooks_append: "renderBooks (xs @ ys) = renderBooks xs @ renderBooks ys"
  by (simp add: renderBooks_def)

lemma take_rendered_count:
  "0 \<le> page s * BOOKS_PER_PAGE D \<Longrightarrow>
   take (nat (rendered_count D s)) (matches s) = take (nat (page s * BOOKS_PER_PAGE D)) (matches s)"
  by (cases "page s * BOOKS_PER_PAGE D \<le> int (length (matches s))")
    (simp_all add: rendered_count_def min_def)

lemma cursor_handle:
  "(case e of
      SearchSubmit f \<Rightarrow> page (handle D h e s) = 1 \<and> matches (handle D h e s) = applyFilters D f
    | ShowMore \<Rightarrow> page (handle D h e s) = page s + 1 \<and> matches (handle D h e s) = matches s
    | _ \<Rightarrow> page (handle D h e s) = page s \<and> matches (handle D h e s) = matches s)"
  by (cases e)
    (simp_all add: handleSettingsFormSubmit_def handleSearchFormSubmit_def updateBookList_def
      createBookList_def Let_def handleShowMoreButtonClick_def handleListItemClick_def
      split: option.splits)

lemma shown_load:
  assumes "0 \<le> BOOKS_PER_PAGE D"
  shows "shown D d0 (load D h d0)"
  using assms
  by (simp add: shown_def load_def initialize_def Let_def createBookList_def initialBooks_def
      slice_drop_take updateShowMoreButton_def checkAndSetTheme_def setThemeColors_def
      createOptionLists_def)

lemma shown_updateBookList:
  assumes "0 \<le> BOOKS_PER_PAGE D"
  shows "shown D d0 (updateBookList D result s)"
  using assms
  by (simp add: shown_def updateBookList_def Let_def createBookList_def initialBooks_def
      slice_drop_take updateShowMoreButton_def)

lemma shown_showMore:
  assumes P: "0 \<le> BOOKS_PER_PAGE D" and sh: "shown D d0 s"
  shows "shown D d0 (handleShowMoreButtonClick D s)"
proof -
  from sh obtain pre where pre: "pre = [] \<or> pre = list_items d0"
    and items: "list_items (doc s) = pre @ renderBooks (take (nat (page s * BOOKS_PER_PAGE D)) (matches s))"
    and pg: "1 \<le> page s"
    by (auto simp: shown_def)
  have a: "0 \<le> page s * BOOKS_PER_PAGE D" using P pg by simp
  have b: "page s * BOOKS_PER_PAGE D \<le> (page s + 1) * BOOKS_PER_PAGE D"
    using P by (simp add: algebra_simps)
  have "list_items (doc (handleShowMoreButtonClick D s)) =
     pre @ renderBooks (take (nat ((page s + 1) * BOOKS_PER_PAGE D)) (matches s))"
    using items take_append_slice [OF a b, of "matches s"]
    by (simp add: handleShowMoreButtonClick_def additionalBooks_def Let_def
        renderBooks_append [symmetric])
  with pre pg show ?thesis
    by (auto simp: shown_def handleShowMoreButtonClick_def)
qed

lemma shown_handle:
  assumes P: "0 \<le> BOOKS_PER_PAGE D" and sh: "shown D d0 s"
  shows "shown D d0 (handle D h e s)"
proof (cases e)
  case (SearchSubmit f)
  then show ?thesis using P by (simp add: handleSearchFormSubmit_def shown_updateBookList)
next
  case ShowMore
  then show ?thesis using P sh by (simp add: shown_showMore)
next
  case (ListItemClick p)
  then show ?thesis using sh
    by (auto simp: shown_def handleListItemClick_def showActiveBook_def split: option.splits)
qed (use sh in \<open>auto simp: shown_def handleSettingsFormSubmit_def setThemeColors_def\<close>)

lemma shown_run:
  assumes "0 \<le> BOOKS_PER_PAGE D"
  shows "shown D d0 (run D h d0 evs)"
  by (induction evs rule: rev_induct)
    (simp_all add: run_Nil run_snoc shown_load shown_handle assms)

text \<open>
  C4. With a page size that is not negative, in every state the application reaches the
  page cursor is at least 1 and the rendered count, the smaller of cursor times page size
  and the length of the matched set, lies between 0 and that length; the list on display
  holds exactly that many entries, the first ones of the matched set, after what the markup
  had in the list at start-up, which is gone after the first search. A search submit sets
  the cursor to 1 in the same step that replaces the matched set, a show-more click adds 1
  to the cursor and keeps the matched set, and no other event changes either.
\<close>

theorem cursor_invariant:
  assumes "0 \<le> BOOKS_PER_PAGE D"
  shows "1 \<le> page (run D h d0 evs) \<and>
     0 \<le> rendered_count D (run D h d0 evs) \<and>
     rendered_count D (run D h d0 evs) \<le> int (length (matches (run D h d0 evs))) \<and>
     (\<exists>pre. (pre = [] \<or> pre = list_items d0) \<and>
        list_items (doc (run D h d0 evs)) =
          pre @ renderBooks (take (nat (rendered_count D (run D h d0 evs)))
                               (matches (run D h d0 evs)))) \<and>
     (case e of
        SearchSubmit f \<Rightarrow>
          page (handle D h e s) = 1 \<and> matches (handle D h e s) = applyFilters D f
      | ShowMore \<Rightarrow>
          page (handle D h e s) = page s + 1 \<and> matches (handle D h e s) = matches s
      | _ \<Rightarrow> page (handle D h e s) = page s \<and> matches (handle D h e s) = matches s)"
proof -
  let ?s = "run D h d0 evs"
  have sh: "shown D d0 ?s" using assms by (rule shown_run)
  then have pg: "1 \<le> page ?s" by (simp add: shown_def)
  then have nn: "0 \<le> page ?s * BOOKS_PER_PAGE D" using assms by simp
  then have rc: "0 \<le> rendered_count D ?s" "rendered_count D ?s \<le> int (length (matches ?s))"
    by (simp_all add: rendered_count_def)
  from sh have "\<exists>pre. (pre = [] \<or> pre = list_items d0) \<and>
        list_items (doc ?s) = pre @ renderBooks (take (nat (rendered_count D ?s)) (matches ?s))"
    by (simp add: shown_def take_rendered_count [OF nn])
  with pg rc cursor_handle [where e = e and D = D and h = h and s = s] show ?thesis by blast
qed

lemma length_fiveBooks: "length fiveBooks = 5"
  by (simp add: fiveBooks_def)

lemma run_example_values:
  "page (run (exampleData fiveBooks 2) (exampleHost None) emptyDom
      [ShowMore, SearchSubmit \<lparr>title = ''dune'', author = ''any'', genre = ''any''\<rparr>, ShowMore]) = 2"
  "rendered_count (exampleData fiveBooks 2)
     (run (exampleData fiveBooks 2) (exampleHost None) emptyDom
      [ShowMore, SearchSubmit \<lparr>title = ''dune'', author = ''any'', genre = ''any''\<rparr>, ShowMore]) = 3"
  by code_simp+

theorem cursor_invariant_witness:
  "0 \<le> BOOKS_PER_PAGE (exampleData fiveBooks 2) \<and>
   1 \<le> page (run (exampleData fiveBooks 2) (exampleHost None) emptyDom
      [ShowMore, SearchSubmit \<lparr>title = ''dune'', author = ''any'', genre = ''any''\<rparr>, ShowMore]) \<and>
   rendered_count (exampleData fiveBooks 2)
     (run (exampleData fiveBooks 2) (exampleHost None) emptyDom
      [ShowMore, SearchSubmit \<lparr>title = ''dune'', author = ''any'', genre = ''any''\<rparr>, ShowMore])
   \<le> int (length (matches (run (exampleData fiveBooks 2) (exampleHost None) emptyDom
      [ShowMore, SearchSubmit \<lparr>title = ''dune'', author = ''any'', genre = ''any''\<rparr>, ShowMore]))) \<and>
   rendered_count (exampleData fiveBooks 2)
     (run (exampleData fiveBooks 2) (exampleHost None) emptyDom
      [ShowMore, SearchSubmit \<lparr>title = ''dune'', author = ''any'', genre = ''any''\<rparr>, ShowMore]) = 3"
proof -
  have P: "0 \<le> BOOKS_PER_PAGE (exampleData fiveBooks 2)"
    by (simp add: exampleData_def)
  note w = cursor_invariant [OF P, of "exampleHost None" emptyDom
      "[ShowMore, SearchSubmit \<lparr>title = ''dune'', author = ''any'', genre = ''any''\<rparr>, ShowMore]"
      ShowMore "load (exampleData fiveBooks 2) (exampleHost None) emptyDom"]
  from P w run_example_values(2) show ?thesis by blast
qed

section \<open>Properties of the pagination\<close>

lemma showMoreWindow_eq:
  assumes "0 \<le> BOOKS_PER_PAGE D" "0 \<le> page s"
  shows "showMoreWindow D s =
     {i. page s * BOOKS_PER_PAGE D \<le> int i \<and> int i < (page s + 1) * BOOKS_PER_PAGE D \<and>
         i < length (matches s)}"
proof -
  have "0 \<le> page s * BOOKS_PER_PAGE D" "0 \<le> (page s + 1) * BOOKS_PER_PAGE D"
    using assms by simp_all
  then show ?thesis
    by (auto simp: showMoreWindow_def Let_def sliceRange_nonneg)
qed

lemma firstWindow_eq:
  assumes "0 \<le> BOOKS_PER_PAGE D"
  shows "firstWindow D s = {i. int i < BOOKS_PER_PAGE D \<and> i < length (matches s)}"
  using assms by (auto simp: firstWindow_def sliceRange_nonneg)

lemma additionalBooks_window:
  "additionalBooks D s = renderBooks (map (nth (matches s)) (sorted_list_of_set (showMoreWindow D s)))"
  by (simp add: additionalBooks_def showMoreWindow_def slice_def Let_def split: prod.splits)

lemma initialBooks_window:
  "initialBooks D s = renderBooks (map (nth (matches s)) (sorted_list_of_set (firstWindow D s)))"
  by (simp add: initialBooks_def firstWindow_def slice_def Let_def split: prod.splits)

lemma clicks_cursor:
  "page ((handleShowMoreButtonClick D ^^ j) s) = page s + int j \<and>
   matches ((handleShowMoreButtonClick D ^^ j) s) = matches s"
  by (induction j) (simp_all add: handleShowMoreButtonClick_def)

lemma reset_cursor:
  "page (updateBookList D result s) = 1 \<and> matches (updateBookList D result s) = result \<and>
   list_items (doc (updateBookList D result s)) = initialBooks D (updateBookList D result s)"
  by (simp add: updateBookList_def Let_def createBookList_def initialBooks_def
      updateShowMoreButton_def)

lemma click_items:
  "list_items (doc (handleShowMoreButtonClick D s)) = list_items (doc s) @ additionalBooks D s"
  by (simp add: handleShowMoreButtonClick_def)

lemma clicks_items:
  assumes P: "0 \<le> BOOKS_PER_PAGE D"
  shows "list_items (doc ((handleShowMoreButtonClick D ^^ k) (updateBookList D result s))) =
     renderBooks (take (nat ((int k + 1) * BOOKS_PER_PAGE D)) result)"
proof (induction k)
  case 0
  show ?case using P
    by (simp add: reset_cursor initialBooks_def slice_drop_take)
next
  case (Suc k)
  let ?s = "(handleShowMoreButtonClick D ^^ k) (updateBookList D result s)"
  have pg: "page ?s = int k + 1" and ms: "matches ?s = result"
    by (simp_all add: clicks_cursor reset_cursor)
  have a: "0 \<le> (int k + 1) * BOOKS_PER_PAGE D" using P by simp
  have b: "(int k + 1) * BOOKS_PER_PAGE D \<le> (int k + 1 + 1) * BOOKS_PER_PAGE D"
    using P by (simp add: algebra_simps)
  have "list_items (doc (handleShowMoreButtonClick D ?s)) =
      renderBooks (take (nat ((int k + 1) * BOOKS_PER_PAGE D)) result) @
      renderBooks (slice ((int k + 1) * BOOKS_PER_PAGE D) ((int k + 1 + 1) * BOOKS_PER_PAGE D) result)"
    using Suc.IH by (simp add: click_items additionalBooks_def Let_def pg ms)
  also have "\<dots> = renderBooks (take (nat ((int k + 1 + 1) * BOOKS_PER_PAGE D)) result)"
    using take_append_slice [OF a b, of result] by (simp add: renderBooks_append [symmetric])
  finally show ?case by (simp add: add.commute add.left_commute)
qed

lemma windows_union:
  assumes P: "0 \<le> BOOKS_PER_PAGE D"
  shows "firstWindow D (updateBookList D result s) \<union>
      (\<Union>j<k. showMoreWindow D ((handleShowMoreButtonClick D ^^ j) (updateBookList D result s))) =
     {i. int i < (int k + 1) * BOOKS_PER_PAGE D \<and> i < length result}"
proof (induction k)
  case 0
  show ?case using P by (simp add: firstWindow_eq reset_cursor)
next
  case (Suc k)
  let ?s = "(handleShowMoreButtonClick D ^^ k) (updateBookList D result s)"
  have pg: "page ?s = int k + 1" and ms: "matches ?s = result"
    by (simp_all add: clicks_cursor reset_cursor)
  have w: "showMoreWindow D ?s =
     {i. (int k + 1) * BOOKS_PER_PAGE D \<le> int i \<and> int i < (int k + 1 + 1) * BOOKS_PER_PAGE D \<and>
         i < length result}"
    using showMoreWindow_eq [OF P, of ?s] by (simp add: pg ms)
  have b: "(int k + 1) * BOOKS_PER_PAGE D \<le> (int k + 1 + 1) * BOOKS_PER_PAGE D"
    using P by (simp add: algebra_simps)
  have step: "{i. int i < (int k + 1) * BOOKS_PER_PAGE D \<and> i < length result} \<union> showMoreWindow D ?s =
     {i. int i < (int k + 1 + 1) * BOOKS_PER_PAGE D \<and> i < length result}"
    unfolding w using b by auto
  have split: "firstWindow D (updateBookList D result s) \<union>
      (\<Union>j<Suc k. showMoreWindow D ((handleShowMoreButtonClick D ^^ j) (updateBookList D result s))) =
     (firstWindow D (updateBookList D result s) \<union>
      (\<Union>j<k. showMoreWindow D ((handleShowMoreButtonClick D ^^ j) (updateBookList D result s)))) \<union>
     showMoreWindow D ?s"
    by (auto simp: less_Suc_eq)
  have e: "int (Suc k) + 1 = int k + 1 + 1" by simp
  show ?case unfolding split Suc.IH e by (rule step)
qed

lemma window_after:
  assumes P: "0 \<le> BOOKS_PER_PAGE D"
  shows "showMoreWindow D ((handleShowMoreButtonClick D ^^ j) (updateBookList D result s)) =
     {i. (int j + 1) * BOOKS_PER_PAGE D \<le> int i \<and> int i < (int j + 1 + 1) * BOOKS_PER_PAGE D \<and>
         i < length result}"
proof -
  let ?s = "(handleShowMoreButtonClick D ^^ j) (updateBookList D result s)"
  have pg: "page ?s = int j + 1" and ms: "matches ?s = result"
    by (simp_all add: clicks_cursor reset_cursor)
  have "0 \<le> page ?s" unfolding pg by simp
  from showMoreWindow_eq [OF P this] show ?thesis
    unfolding pg ms .
qed

lemma windows_disjoint_less:
  assumes P: "0 \<le> BOOKS_PER_PAGE D" and ij: "i < j"
  shows "showMoreWindow D ((handleShowMoreButtonClick D ^^ i) (updateBookList D result s)) \<inter>
         showMoreWindow D ((handleShowMoreButtonClick D ^^ j) (updateBookList D result s)) = {}"
proof -
  have "int i + 1 + 1 \<le> int j + 1" using ij by simp
  then have "(int i + 1 + 1) * BOOKS_PER_PAGE D \<le> (int j + 1) * BOOKS_PER_PAGE D"
    using P by (rule mult_right_mono)
  then show ?thesis
    unfolding window_after [OF P] by auto
qed

lemma windows_disjoint:
  assumes P: "0 \<le> BOOKS_PER_PAGE D" and ij: "i \<noteq> j"
  shows "showMoreWindow D ((handleShowMoreButtonClick D ^^ i) (updateBookList D result s)) \<inter>
         showMoreWindow D ((handleShowMoreButtonClick D ^^ j) (updateBookList D result s)) = {}"
proof (cases "i < j")
  case True
  then show ?thesis using P by (rule windows_disjoint_less [rotated])
next
  case False
  with ij have "j < i" by simp
  then have "showMoreWindow D ((handleShowMoreButtonClick D ^^ j) (updateBookList D result s)) \<inter>
         showMoreWindow D ((handleShowMoreButtonClick D ^^ i) (updateBookList D result s)) = {}"
    using P by (rule windows_disjoint_less [rotated])
  then show ?thesis by (simp add: Int_commute)
qed

lemma first_window_disjoint:
  assumes P: "0 \<le> BOOKS_PER_PAGE D"
  shows "firstWindow D (updateBookList D result s) \<inter>
         showMoreWindow D ((handleShowMoreButtonClick D ^^ j) (updateBookList D result s)) = {}"
proof -
  have d: "(int j + 1) * BOOKS_PER_PAGE D = int j * BOOKS_PER_PAGE D + BOOKS_PER_PAGE D"
    by (simp add: algebra_simps)
  have n: "0 \<le> int j * BOOKS_PER_PAGE D"
    using P by simp
  have False if "int x < BOOKS_PER_PAGE D" "(int j + 1) * BOOKS_PER_PAGE D \<le> int x" for x
    using that n unfolding d by linarith
  then show ?thesis
    unfolding window_after [OF P] firstWindow_eq [OF P] by blast
qed

text \<open>
  C2. With a page size \<open>P\<close> that is not negative and a matched set of length \<open>L\<close>: the
  slice rendered by a reset covers the indices from 0 up to the smaller of \<open>P\<close> and \<open>L\<close>;
  every show-more click renders the indices of the window from \<open>page * P\<close> up to
  \<open>(page + 1) * P\<close> that lie below \<open>L\<close> and then adds 1 to the page. The windows rendered
  by the reset and by the clicks that follow are pairwise disjoint; after \<open>k\<close> clicks
  their union is the range from 0 up to the smaller of \<open>(k + 1) * P\<close> and \<open>L\<close>, so it
  covers the range from 0 up to \<open>k * P\<close> when \<open>L\<close> is at least \<open>k * P\<close>. A click whose
  window starts at or past \<open>L\<close> renders nothing and changes nothing in the list.
\<close>

theorem pagination_windows:
  assumes P: "0 \<le> BOOKS_PER_PAGE D"
  shows "let P = BOOKS_PER_PAGE D; L = length result; s0 = updateBookList D result s;
             after = (\<lambda>j. (handleShowMoreButtonClick D ^^ j) s0)
         in firstWindow D s0 = {0..<nat (min P (int L))} \<and>
            list_items (doc s0) =
              renderBooks (map (nth result) (sorted_list_of_set (firstWindow D s0))) \<and>
            (\<forall>j. page (after j) = int j + 1 \<and> matches (after j) = result \<and>
                 showMoreWindow D (after j) =
                   {i. page (after j) * P \<le> int i \<and> int i < (page (after j) + 1) * P \<and> i < L} \<and>
                 list_items (doc (after (Suc j))) =
                   list_items (doc (after j)) @
                   renderBooks (map (nth result) (sorted_list_of_set (showMoreWindow D (after j)))) \<and>
                 page (after (Suc j)) = page (after j) + 1) \<and>
            (\<forall>i j. i \<noteq> j \<longrightarrow> showMoreWindow D (after i) \<inter> showMoreWindow D (after j) = {}) \<and>
            (\<forall>j. firstWindow D s0 \<inter> showMoreWindow D (after j) = {}) \<and>
            firstWindow D s0 \<union> (\<Union>j<k. showMoreWindow D (after j)) =
              {i. int i < (int k + 1) * P \<and> i < L} \<and>
            (int k * P \<le> int L \<longrightarrow>
               {i. int i < int k * P} \<subseteq> firstWindow D s0 \<union> (\<Union>j<k. showMoreWindow D (after j))) \<and>
            list_items (doc (after k)) = renderBooks (take (nat ((int k + 1) * P)) result) \<and>
            (\<forall>j. int L \<le> page (after j) * P \<longrightarrow>
                 showMoreWindow D (after j) = {} \<and> additionalBooks D (after j) = [] \<and>
                 list_items (doc (after (Suc j))) = list_items (doc (after j)))"
proof -
  let ?s0 = "updateBookList D result s"
  let ?after = "\<lambda>j. (handleShowMoreButtonClick D ^^ j) ?s0"
  let ?P = "BOOKS_PER_PAGE D"
  have cur: "page (?after j) = int j + 1" "matches (?after j) = result" for j
    by (simp_all add: clicks_cursor reset_cursor)
  have win: "showMoreWindow D (?after j) =
      {i. page (?after j) * ?P \<le> int i \<and> int i < (page (?after j) + 1) * ?P \<and> i < length result}" for j
    using window_after [OF P, of j result s] by (simp add: cur)
  have c1: "firstWindow D ?s0 = {0..<nat (min ?P (int (length result)))}"
    using P by (auto simp: firstWindow_eq reset_cursor)
  have c2: "list_items (doc ?s0) =
      renderBooks (map (nth result) (sorted_list_of_set (firstWindow D ?s0)))"
    using initialBooks_window [of D ?s0] by (simp add: reset_cursor)
  have step: "list_items (doc (?after (Suc j))) =
      list_items (doc (?after j)) @
      renderBooks (map (nth result) (sorted_list_of_set (showMoreWindow D (?after j))))" for j
    using additionalBooks_window [of D "?after j"] by (simp add: click_items cur)
  have c3: "page (?after j) = int j + 1 \<and> matches (?after j) = result \<and>
      showMoreWindow D (?after j) =
        {i. page (?after j) * ?P \<le> int i \<and> int i < (page (?after j) + 1) * ?P \<and> i < length result} \<and>
      list_items (doc (?after (Suc j))) =
        list_items (doc (?after j)) @
        renderBooks (map (nth result) (sorted_list_of_set (showMoreWindow D (?after j)))) \<and>
      page (?after (Suc j)) = page (?after j) + 1" for j
    using cur [of j] cur [of "Suc j"] win [of j] step [of j] by simp
  have c4: "i \<noteq> j \<longrightarrow> showMoreWindow D (?after i) \<inter> showMoreWindow D (?after j) = {}" for i j
    using windows_disjoint [OF P] by blast
  have c5: "firstWindow D ?s0 \<inter> showMoreWindow D (?after j) = {}" for j
    by (rule first_window_disjoint [OF P])
  have c6: "firstWindow D ?s0 \<union> (\<Union>j<k. showMoreWindow D (?after j)) =
      {i. int i < (int k + 1) * ?P \<and> i < length result}"
    by (rule windows_union [OF P])
  have c7: "int k * ?P \<le> int (length result) \<longrightarrow>
      {i. int i < int k * ?P} \<subseteq> firstWindow D ?s0 \<union> (\<Union>j<k. showMoreWindow D (?after j))"
  proof
    assume le: "int k * ?P \<le> int (length result)"
    have "int k * ?P \<le> (int k + 1) * ?P" using P by (simp add: algebra_simps)
    with le show "{i. int i < int k * ?P} \<subseteq> firstWindow D ?s0 \<union> (\<Union>j<k. showMoreWindow D (?after j))"
      unfolding c6 by auto
  qed
  have c8: "list_items (doc (?after k)) = renderBooks (take (nat ((int k + 1) * ?P)) result)"
    by (rule clicks_items [OF P])
  have c9: "int (length result) \<le> page (?after j) * ?P \<longrightarrow>
      showMoreWindow D (?after j) = {} \<and> additionalBooks D (?after j) = [] \<and>
      list_items (doc (?after (Suc j))) = list_items (doc (?after j))" for j
  proof
    assume "int (length result) \<le> page (?after j) * ?P"
    then have e: "showMoreWindow D (?after j) = {}"
      unfolding win [of j] by auto
    then have "additionalBooks D (?after j) = []"
      by (simp add: additionalBooks_window renderBooks_def)
    with e show "showMoreWindow D (?after j) = {} \<and> additionalBooks D (?after j) = [] \<and>
      list_items (doc (?after (Suc j))) = list_items (doc (?after j))"
      by (simp add: click_items)
  qed
  show ?thesis
    unfolding Let_def
    using c1 c2 c3 c4 c5 c6 c7 c8 c9 by blast
qed

theorem pagination_windows_witness:
  "0 \<le> BOOKS_PER_PAGE (exampleData fiveBooks 2) \<and>
   firstWindow (exampleData fiveBooks 2)
     (updateBookList (exampleData fiveBooks 2) fiveBooks
        (load (exampleData fiveBooks 2) (exampleHost None) emptyDom)) = {0..<2} \<and>
   list_items (doc ((handleShowMoreButtonClick (exampleData fiveBooks 2) ^^ 2)
     (updateBookList (exampleData fiveBooks 2) fiveBooks
        (load (exampleData fiveBooks 2) (exampleHost None) emptyDom)))) = renderBooks fiveBooks"
proof -
  have P: "0 \<le> BOOKS_PER_PAGE (exampleData fiveBooks 2)"
    by (simp add: exampleData_def)
  note w = pagination_windows [OF P, of fiveBooks
      "load (exampleData fiveBooks 2) (exampleHost None) emptyDom" 2, unfolded Let_def]
  have bp: "BOOKS_PER_PAGE (exampleData fiveBooks 2) = 2"
    by (simp add: exampleData_def)
  from w have "firstWindow (exampleData fiveBooks 2)
     (updateBookList (exampleData fiveBooks 2) fiveBooks
        (load (exampleData fiveBooks 2) (exampleHost None) emptyDom)) =
     {0..<nat (min (BOOKS_PER_PAGE (exampleData fiveBooks 2)) (int (length fiveBooks)))}"
    by (rule conjunct1)
  then have a: "firstWindow (exampleData fiveBooks 2)
     (updateBookList (exampleData fiveBooks 2) fiveBooks
        (load (exampleData fiveBooks 2) (exampleHost None) emptyDom)) = {0..<2}"
    by (simp add: bp length_fiveBooks)
  from w have "list_items (doc ((handleShowMoreButtonClick (exampleData fiveBooks 2) ^^ 2)
     (updateBookList (exampleData fiveBooks 2) fiveBooks
        (load (exampleData fiveBooks 2) (exampleHost None) emptyDom)))) =
     renderBooks (take (nat ((int 2 + 1) * BOOKS_PER_PAGE (exampleData fiveBooks 2))) fiveBooks)"
    by blast
  then have b: "list_items (doc ((handleShowMoreButtonClick (exampleData fiveBooks 2) ^^ 2)
     (updateBookList (exampleData fiveBooks 2) fiveBooks
        (load (exampleData fiveBooks 2) (exampleHost None) emptyDom)))) = renderBooks fiveBooks"
    by (simp add: bp length_fiveBooks)
  from P a b show ?thesis by blast
qed

end
